theory Spec2Isabelle
  imports Complex_Main "HOL-Library.Multiset"
begin

section \<open>The serial AMR stencil kernel (SERIAL/AMR/amr.c)\<close>

text \<open>
  The kernel applies a fixed stencil to a square background grid while four refinement
  patches are periodically interpolated from it and updated. This theory embeds the
  numerical engine of \<^verbatim>\<open>main\<close> and \<^verbatim>\<open>interpolate\<close>.

  Conventions of the embedding:
  \<^item> \<^verbatim>\<open>DTYPE\<close> (float or double) is modelled by exact rational arithmetic; rounding,
    overflow to infinity and NaN are outside the model.
  \<^item> \<^verbatim>\<open>int\<close> and \<^verbatim>\<open>long\<close> are modelled by unbounded integers; signed overflow is
    undefined behaviour in C and is not modelled.
  \<^item> The buffers obtained from \<^verbatim>\<open>prk_malloc\<close> are lists, indexed through the source's
    macros \<^verbatim>\<open>IN\<close>, \<^verbatim>\<open>OUT\<close>, \<^verbatim>\<open>INR\<close>, \<^verbatim>\<open>OUTR\<close>; their contents before initialisation are
    arbitrary and are parameters of the model.
  \<^item> The compile-time macros \<^verbatim>\<open>RADIUS\<close>, \<^verbatim>\<open>STAR\<close> and \<^verbatim>\<open>DOUBLE\<close> are fields of the
    configuration. The \<^verbatim>\<open>LOOPGEN\<close> variant includes generated files that are not part
    of the source; the compact loop bodies (\<^verbatim>\<open>LOOPGEN\<close> off) are the ones modelled.
  \<^item> Of the console output, the lines of the validation and the rate line are modelled;
    the wall-clock time measured by \<^verbatim>\<open>wtime\<close> is a parameter.
\<close>

subsection \<open>Element type, constants, configuration\<close>

type_synonym dtype = rat

datatype shape = Star | Compact

definition COEFX :: dtype where
  "COEFX = 1"

definition COEFY :: dtype where
  "COEFY = 1"

definition EPSILON :: "bool \<Rightarrow> dtype" where
  "EPSILON dbl = (if dbl then 1 / 100000000 else 1 / 1000)"

text \<open>
  The configuration: the build parameters and the command-line arguments after
  \<^verbatim>\<open>atoi\<close>/\<^verbatim>\<open>atol\<close>. \<open>grid_n\<close> is the source's \<^verbatim>\<open>n\<close> and \<open>grid_nr\<close> its \<^verbatim>\<open>nr\<close>.
\<close>

record config =
  RADIUS :: int
  stencil :: shape
  DOUBLE :: bool
  iterations :: int
  grid_n :: int
  grid_nr :: int
  r_level :: int
  period :: int
  duration :: int
  sub_iterations :: int
  tiling :: bool
  tile_size :: int

text \<open>
  Lines 241-245: the optional ninth argument. A tile size outside \<open>1..n\<close> is replaced
  by \<open>n\<close> and leaves tiling off; without the argument \<^verbatim>\<open>tiling\<close> keeps its initial 0.
\<close>

definition parse_tile :: "int option \<Rightarrow> config \<Rightarrow> config" where
  "parse_tile arg cfg =
     (case arg of
        None \<Rightarrow> cfg\<lparr>tiling := False\<rparr>
      | Some t \<Rightarrow>
          if t \<le> 0 \<or> t > grid_n cfg then cfg\<lparr>tiling := False, tile_size := grid_n cfg\<rparr>
          else cfg\<lparr>tiling := True, tile_size := t\<rparr>)"

text \<open>Lines 216-220: refinement mesh spacing and ratio of mesh spacings.\<close>

definition expand :: "config \<Rightarrow> int" where
  "expand cfg = fold (\<lambda>l e. e * 2) [0..r_level cfg - 1] 1"

definition hr :: "config \<Rightarrow> dtype" where
  "hr cfg = fold (\<lambda>l h. h / 2) [0..r_level cfg - 1] 1"

definition nr_true :: "config \<Rightarrow> int" where
  "nr_true cfg = grid_nr cfg * expand cfg + 1"

text \<open>
  The configuration errors, in the order in which lines 186-261 test them; each one
  ends the program with \<^verbatim>\<open>EXIT_FAILURE\<close>.
\<close>

datatype config_error =
  BadIterations | BadGrid | BadRefinementSize | RefinementTooLarge | BadLevel
  | BadPeriod | BadDuration | BadSubIterations | BadRadius | RadiusExceedsGrid
  | RadiusExceedsRefinement

definition check_config :: "config \<Rightarrow> config_error option" where
  "check_config cfg =
     (if iterations cfg < 1 then Some BadIterations
      else if grid_n cfg < 2 then Some BadGrid
      else if grid_nr cfg < 1 then Some BadRefinementSize
      else if grid_nr cfg \<ge> grid_n cfg then Some RefinementTooLarge
      else if r_level cfg < 0 then Some BadLevel
      else if period cfg < 1 then Some BadPeriod
      else if duration cfg < 1 \<or> duration cfg > period cfg then Some BadDuration
      else if sub_iterations cfg < 1 then Some BadSubIterations
      else if RADIUS cfg < 1 then Some BadRadius
      else if 2 * RADIUS cfg + 1 > grid_n cfg then Some RadiusExceedsGrid
      else if 2 * RADIUS cfg + 1 > nr_true cfg then Some RadiusExceedsRefinement
      else None)"

text \<open>
  A valid configuration passes every test; when tiling is on, the tile size is the one
  \<open>parse_tile\<close> accepted, between 1 and \<open>n\<close>.
\<close>

definition valid_config :: "config \<Rightarrow> bool" where
  "valid_config cfg =
     (check_config cfg = None \<and>
      (if tiling cfg then 0 < tile_size cfg \<and> tile_size cfg \<le> grid_n cfg else True))"

subsection \<open>Weight Table Builder (lines 285-316)\<close>

text \<open>
  The table \<^verbatim>\<open>weight[2*RADIUS+1][2*RADIUS+1]\<close> is addressed only through
  \<^verbatim>\<open>WEIGHT(ii,jj) = weight[ii+RADIUS][jj+RADIUS]\<close>; it is modelled as a store from the
  offsets \<open>(ii, jj)\<close> to values, and \<open>wset\<close> is one assignment to it.
\<close>

type_synonym wtable = "int \<Rightarrow> int \<Rightarrow> dtype"

definition wset :: "int \<Rightarrow> int \<Rightarrow> dtype \<Rightarrow> wtable \<Rightarrow> wtable" where
  "wset ii jj v w = w(ii := (w ii)(jj := v))"

definition weight_zero :: "int \<Rightarrow> wtable \<Rightarrow> wtable" where
  "weight_zero R = fold (\<lambda>jj. fold (\<lambda>ii. wset ii jj 0) [- R..R]) [- R..R]"

text \<open>
  Lines 293-296. \<^verbatim>\<open>WEIGHT(0,ii) = WEIGHT(ii,0) = v\<close> assigns right to left.
\<close>

definition star_body :: "int \<Rightarrow> int \<Rightarrow> wtable \<Rightarrow> wtable" where
  "star_body R ii w =
     (let v = 1 / (2 * of_int ii * of_int R);
          w1 = wset ii 0 v w;
          w2 = wset 0 ii v w1;
          w3 = wset (- ii) 0 (- v) w2
      in wset 0 (- ii) (- v) w3)"

definition weight_star :: "int \<Rightarrow> wtable \<Rightarrow> wtable" where
  "weight_star R = fold (star_body R) [1..R]"

text \<open>Lines 299-308.\<close>

definition compact_inner :: "int \<Rightarrow> int \<Rightarrow> int \<Rightarrow> wtable \<Rightarrow> wtable" where
  "compact_inner R jj ii w =
     (let v = 1 / (4 * of_int jj * (2 * of_int jj - 1) * of_int R);
          w1 = wset ii jj v w;
          w2 = wset ii (- jj) (- v) w1;
          w3 = wset jj ii v w2
      in wset (- jj) ii (- v) w3)"

definition compact_body :: "int \<Rightarrow> int \<Rightarrow> wtable \<Rightarrow> wtable" where
  "compact_body R jj w =
     (let w1 = fold (compact_inner R jj) [- jj + 1..jj - 1] w;
          c = 1 / (4 * of_int jj * of_int R);
          w2 = wset jj jj c w1
      in wset (- jj) (- jj) (- c) w2)"

definition weight_compact :: "int \<Rightarrow> wtable \<Rightarrow> wtable" where
  "weight_compact R = fold (compact_body R) [1..R]"

text \<open>
  The whole construction, from the uninitialised table \<open>w0\<close>: zero fill, then the
  shape's loop.
\<close>

definition weight :: "int \<Rightarrow> shape \<Rightarrow> wtable \<Rightarrow> wtable" where
  "weight R sh w0 =
     (case sh of
        Star \<Rightarrow> weight_star R (weight_zero R w0)
      | Compact \<Rightarrow> weight_compact R (weight_zero R w0))"

definition stencil_size :: "int \<Rightarrow> shape \<Rightarrow> int" where
  "stencil_size R sh = (case sh of Star \<Rightarrow> 4 * R + 1 | Compact \<Rightarrow> (2 * R + 1) * (2 * R + 1))"


text \<open>The number of nonzero entries of the table.\<close>

definition nonzero_count :: "int \<Rightarrow> wtable \<Rightarrow> nat" where
  "nonzero_count R w =
     length (filter (\<lambda>p. w (snd p) (fst p) \<noteq> 0) (List.product [- R..R] [- R..R]))"

subsection \<open>Stencil Applicator (lines 386-435 and 443-492)\<close>

text \<open>
  The four loop nests of the source (background and refinement, untiled and tiled) are
  the same code up to the buffer they address: \<^verbatim>\<open>IN(i,j) = in[i+(j)*(n)]\<close> for the
  background and \<^verbatim>\<open>INR(g,i,j) = inr[g][i+(j)*(nr_true)]\<close> for patch \<open>g\<close>, where
  \<^verbatim>\<open>inr[g] = inr[0] + g*nr_true*nr_true\<close>. The model takes the side \<open>S\<close> of the grid and
  the offset \<open>base\<close> of the grid in its allocation as parameters. In a valid run every
  index is non-negative and inside the allocation (lemmas \<open>IDX_less\<close> and
  \<open>patch_IDX_less\<close>); outside that range, where the C program has no defined behaviour,
  \<open>nat\<close> and the list operations still give a value.
\<close>

definition IDX :: "int \<Rightarrow> int \<Rightarrow> int \<Rightarrow> int \<Rightarrow> nat" where
  "IDX base S i j = nat (base + i + j * S)"

text \<open>\<^verbatim>\<open>OUT(i,j) += v\<close>: one read and one write of the output buffer.\<close>

definition accum :: "nat \<Rightarrow> dtype \<Rightarrow> dtype list \<Rightarrow> dtype list" where
  "accum k v out = out[k := out ! k + v]"

definition point_star ::
  "int \<Rightarrow> wtable \<Rightarrow> int \<Rightarrow> int \<Rightarrow> dtype list \<Rightarrow> int \<Rightarrow> int \<Rightarrow> dtype list \<Rightarrow> dtype list" where
  "point_star R w base S src i j out =
     (let o1 = fold (\<lambda>jj. accum (IDX base S i j) (w 0 jj * src ! IDX base S i (j + jj)))
                 [- R..R] out;
          o2 = fold (\<lambda>ii. accum (IDX base S i j) (w ii 0 * src ! IDX base S (i + ii) j))
                 [- R..- 1] o1
      in fold (\<lambda>ii. accum (IDX base S i j) (w ii 0 * src ! IDX base S (i + ii) j))
           [1..R] o2)"

definition point_compact ::
  "int \<Rightarrow> wtable \<Rightarrow> int \<Rightarrow> int \<Rightarrow> dtype list \<Rightarrow> int \<Rightarrow> int \<Rightarrow> dtype list \<Rightarrow> dtype list" where
  "point_compact R w base S src i j out =
     fold (\<lambda>jj. fold (\<lambda>ii. accum (IDX base S i j)
                              (w ii jj * src ! IDX base S (i + ii) (j + jj)))
                  [- R..R])
       [- R..R] out"

definition point ::
  "shape \<Rightarrow> int \<Rightarrow> wtable \<Rightarrow> int \<Rightarrow> int \<Rightarrow> dtype list \<Rightarrow> int \<Rightarrow> int \<Rightarrow> dtype list \<Rightarrow> dtype list" where
  "point sh R w base S src i j out =
     (case sh of
        Star \<Rightarrow> point_star R w base S src i j out
      | Compact \<Rightarrow> point_compact R w base S src i j out)"

text \<open>The untiled loop nest: \<open>j\<close> outermost, both from \<open>RADIUS\<close> to \<open>S-RADIUS-1\<close>.\<close>

definition sweep_untiled ::
  "shape \<Rightarrow> int \<Rightarrow> wtable \<Rightarrow> int \<Rightarrow> int \<Rightarrow> dtype list \<Rightarrow> dtype list \<Rightarrow> dtype list" where
  "sweep_untiled sh R w base S src =
     fold (\<lambda>j. fold (\<lambda>i. point sh R w base S src i j) [R..S - R - 1]) [R..S - R - 1]"

text \<open>
  The values taken by the counter of \<^verbatim>\<open>for (t=lo; t<hi; t+=ts)\<close>. The loop is entered
  only with tiling on, hence with \<open>0 < ts\<close> (see \<open>parse_tile\<close>); a step that is not
  positive, with which the C loop would not advance, yields no tile here.
\<close>

function tile_starts :: "int \<Rightarrow> int \<Rightarrow> int \<Rightarrow> int list" where
  "tile_starts lo hi ts =
     (if lo < hi \<and> 0 < ts then lo # tile_starts (lo + ts) hi ts else [])"
  by pat_completeness auto
termination
  by (relation "measure (\<lambda>(lo, hi, ts). nat (hi - lo))") auto

declare tile_starts.simps [simp del]

text \<open>The tiled loop nest: tiles of side \<open>ts\<close>, the last one clipped by \<^verbatim>\<open>MIN\<close>.\<close>

definition sweep_tiled ::
  "shape \<Rightarrow> int \<Rightarrow> wtable \<Rightarrow> int \<Rightarrow> int \<Rightarrow> int \<Rightarrow> dtype list \<Rightarrow> dtype list \<Rightarrow> dtype list" where
  "sweep_tiled sh R w base S ts src =
     fold (\<lambda>jt.
        fold (\<lambda>it.
           fold (\<lambda>j.
              fold (\<lambda>i. point sh R w base S src i j)
                [it..min (S - R) (it + ts) - 1])
             [jt..min (S - R) (jt + ts) - 1])
          (tile_starts R (S - R) ts))
       (tile_starts R (S - R) ts)"

definition apply_stencil ::
  "shape \<Rightarrow> int \<Rightarrow> bool \<Rightarrow> int \<Rightarrow> wtable \<Rightarrow> int \<Rightarrow> int \<Rightarrow> dtype list \<Rightarrow> dtype list \<Rightarrow> dtype list" where
  "apply_stencil sh R tiled ts w base S src out =
     (if \<not> tiled then sweep_untiled sh R w base S src out
      else sweep_tiled sh R w base S ts src out)"

subsection \<open>Interpolator (lines 91-127)\<close>

text \<open>
  \<^verbatim>\<open>(long)x\<close> truncates towards zero. The patch written is the one at offset \<open>base\<close> of
  the refinement allocation (the pointer \<^verbatim>\<open>inr[g]\<close>); the background grid is read at
  offset 0 with side \<open>n\<close>. The division \<^verbatim>\<open>(nr_true-1)/expand\<close> has non-negative
  operands, where C's quotient is \<open>div\<close>.
\<close>

definition c_long :: "dtype \<Rightarrow> int" where
  "c_long x = (if 0 \<le> x then \<lfloor>x\<rfloor> else \<lceil>x\<rceil>)"

definition interp_copy ::
  "int \<Rightarrow> dtype list \<Rightarrow> int \<Rightarrow> int \<Rightarrow> int \<Rightarrow> int \<Rightarrow> dtype list \<Rightarrow> dtype list" where
  "interp_copy base src n nrt rsi rsj =
     fold (\<lambda>jr. fold (\<lambda>ir b. b[IDX base nrt ir jr := src ! IDX 0 n (ir + rsi) (jr + rsj)])
                  [0..nrt - 1])
       [0..nrt - 1]"

definition interp_x_row ::
  "int \<Rightarrow> dtype list \<Rightarrow> int \<Rightarrow> int \<Rightarrow> int \<Rightarrow> int \<Rightarrow> dtype \<Rightarrow> int \<Rightarrow> int
     \<Rightarrow> dtype list \<Rightarrow> dtype list" where
  "interp_x_row base src n nrt rsi ex h jr jb b =
     (let b1 = fold (\<lambda>ir b.
                  (let xr = of_int rsi + h * of_int ir;
                       ib = c_long xr;
                       xb = of_int ib
                   in b[IDX base nrt ir jr :=
                          src ! IDX 0 n (ib + 1) jb * (xr - xb)
                          + src ! IDX 0 n ib jb * (xb + 1 - xr)]))
                [0..nrt - 2] b;
          rendi = rsi + (nrt - 1) div ex
      in b1[IDX base nrt (nrt - 1) jr := src ! IDX 0 n rendi jb])"

text \<open>
  \<^verbatim>\<open>for (jr=0,jb=rstartj; jr<nr_true; jr+=expand,jb++)\<close>. The caller passes
  \<open>expand = 2^r_level\<close>, which is positive; a step that is not positive ends the
  recursion here.
\<close>

function interp_x ::
  "int \<Rightarrow> dtype list \<Rightarrow> int \<Rightarrow> int \<Rightarrow> int \<Rightarrow> int \<Rightarrow> dtype \<Rightarrow> int \<Rightarrow> int
     \<Rightarrow> dtype list \<Rightarrow> dtype list" where
  "interp_x base src n nrt rsi ex h jr jb b =
     (if jr < nrt \<and> 0 < ex
      then interp_x base src n nrt rsi ex h (jr + ex) (jb + 1)
             (interp_x_row base src n nrt rsi ex h jr jb b)
      else b)"
  by pat_completeness auto
termination
  by (relation "measure (\<lambda>(base, src, n, nrt, rsi, ex, h, jr, jb, b). nat (nrt - jr))") auto

declare interp_x.simps [simp del]

definition interp_y :: "int \<Rightarrow> int \<Rightarrow> int \<Rightarrow> dtype \<Rightarrow> dtype list \<Rightarrow> dtype list" where
  "interp_y base nrt ex h =
     fold (\<lambda>jr b.
        (let yr = h * of_int jr;
             jb = c_long yr;
             jrb = jb * ex;
             jrb1 = (jb + 1) * ex;
             yb = of_int \<lfloor>yr\<rfloor>
         in fold (\<lambda>ir b. b[IDX base nrt ir jr :=
                             b ! IDX base nrt ir jrb1 * (yr - yb)
                             + b ! IDX base nrt ir jrb * (yb + 1 - yr)])
              [0..nrt - 1] b))
       [0..nrt - 2]"

definition interpolate ::
  "int \<Rightarrow> dtype list \<Rightarrow> int \<Rightarrow> int \<Rightarrow> int \<Rightarrow> int \<Rightarrow> int \<Rightarrow> dtype \<Rightarrow> dtype list \<Rightarrow> dtype list" where
  "interpolate base src n nrt rsi rsj ex h b =
     (if h = 1 then interp_copy base src n nrt rsi rsj b
      else interp_y base nrt ex h (interp_x base src n nrt rsi ex h 0 rsj b))"

subsection \<open>Program state, initialisation and the iteration loop (lines 349-497)\<close>

text \<open>
  \<open>inb\<close> and \<open>outb\<close> are the source's \<^verbatim>\<open>in\<close> and \<^verbatim>\<open>out\<close>; \<open>inr\<close> and \<open>outr\<close> are the two
  refinement allocations, in which patch \<open>g\<close> starts at \<open>patch_base\<close>; \<open>cur_g\<close> is the
  variable \<^verbatim>\<open>g\<close>. The state from which \<open>init\<close> starts holds the uninitialised contents.
\<close>

record state =
  inb :: "dtype list"
  outb :: "dtype list"
  inr :: "dtype list"
  outr :: "dtype list"
  weight_tab :: wtable
  weight_r_tab :: wtable
  cur_g :: int
  num_interpolations :: int

text \<open>Lines 264-283: the sizes of the four allocations.\<close>

definition well_sized :: "config \<Rightarrow> state \<Rightarrow> bool" where
  "well_sized cfg s =
     (length (inb s) = nat (grid_n cfg * grid_n cfg) \<and>
      length (outb s) = nat (grid_n cfg * grid_n cfg) \<and>
      length (inr s) = nat (4 * nr_true cfg * nr_true cfg) \<and>
      length (outr s) = nat (4 * nr_true cfg * nr_true cfg))"

text \<open>Lines 280-283: \<^verbatim>\<open>inr[g] = inr[g-1] + nr_true*nr_true\<close>, and the same for \<^verbatim>\<open>outr\<close>.\<close>

definition patch_base :: "config \<Rightarrow> int \<Rightarrow> int" where
  "patch_base cfg g = g * (nr_true cfg * nr_true cfg)"

text \<open>Lines 356-359: the bottom left corner of each refinement.\<close>

definition rstarti :: "config \<Rightarrow> int list" where
  "rstarti cfg = [0, grid_n cfg - grid_nr cfg - 1, 0, grid_n cfg - grid_nr cfg - 1]"

definition rstartj :: "config \<Rightarrow> int list" where
  "rstartj cfg = [0, grid_n cfg - grid_nr cfg - 1, grid_n cfg - grid_nr cfg - 1, 0]"

text \<open>
  Lines 349-370: the initialisation loops. \<open>init\<close> also holds the two weight tables of
  lines 285-316, built from whatever the stack arrays contained.
\<close>

definition init_in :: "int \<Rightarrow> dtype list \<Rightarrow> dtype list" where
  "init_in n =
     fold (\<lambda>j. fold (\<lambda>i b. b[IDX 0 n i j := COEFX * of_int i + COEFY * of_int j]) [0..n - 1])
       [0..n - 1]"

definition zero_all :: "int \<Rightarrow> int \<Rightarrow> dtype list \<Rightarrow> dtype list" where
  "zero_all base S =
     fold (\<lambda>j. fold (\<lambda>i b. b[IDX base S i j := 0]) [0..S - 1]) [0..S - 1]"

definition zero_interior :: "int \<Rightarrow> int \<Rightarrow> int \<Rightarrow> dtype list \<Rightarrow> dtype list" where
  "zero_interior R base S =
     fold (\<lambda>j. fold (\<lambda>i b. b[IDX base S i j := 0]) [R..S - R - 1]) [R..S - R - 1]"


text \<open>\<^verbatim>\<open>IN(i,j) += 1.0\<close> over the whole grid (lines 438 and 495).\<close>

definition add_one :: "int \<Rightarrow> int \<Rightarrow> dtype list \<Rightarrow> dtype list" where
  "add_one base S =
     fold (\<lambda>j. fold (\<lambda>i. accum (IDX base S i j) 1) [0..S - 1]) [0..S - 1]"

text \<open>
  Lines 377-382: a refinement comes to life. \<^verbatim>\<open>iter\<close> is non-negative and \<^verbatim>\<open>period\<close>
  positive, where C's \<^verbatim>\<open>%\<close> and \<^verbatim>\<open>/\<close> are \<open>mod\<close> and \<open>div\<close>.
\<close>

definition birth :: "config \<Rightarrow> int \<Rightarrow> state \<Rightarrow> state" where
  "birth cfg iter s =
     (if iter mod period cfg = 0
      then (let g = (iter div period cfg) mod 4
            in s\<lparr>cur_g := g,
                 num_interpolations := num_interpolations s + 1,
                 inr := interpolate (patch_base cfg g) (inb s) (grid_n cfg) (nr_true cfg)
                          (rstarti cfg ! nat g) (rstartj cfg ! nat g) (expand cfg) (hr cfg)
                          (inr s)\<rparr>)
      else s)"

text \<open>Lines 384-439: the live refinement receives its sub-iterations.\<close>

definition refine :: "config \<Rightarrow> int \<Rightarrow> state \<Rightarrow> state" where
  "refine cfg iter s =
     (if iter mod period cfg < duration cfg
      then (let g = cur_g s;
                o1 = fold (\<lambda>sub_iter.
                       apply_stencil (stencil cfg) (RADIUS cfg) (tiling cfg) (tile_size cfg)
                         (weight_r_tab s) (patch_base cfg g) (nr_true cfg) (inr s))
                     [0..sub_iterations cfg - 1] (outr s)
            in s\<lparr>outr := o1, inr := add_one (patch_base cfg g) (nr_true cfg) (inr s)\<rparr>)
      else s)"

text \<open>Lines 443-495: the background grid is updated in every iteration.\<close>

definition background :: "config \<Rightarrow> state \<Rightarrow> state" where
  "background cfg s =
     s\<lparr>outb := apply_stencil (stencil cfg) (RADIUS cfg) (tiling cfg) (tile_size cfg)
                 (weight_tab s) 0 (grid_n cfg) (inb s) (outb s)\<rparr>"








subsection \<open>Validator and throughput (lines 501-578)\<close>

definition f_active_points :: "config \<Rightarrow> dtype" where
  "f_active_points cfg =
     of_int (grid_n cfg - 2 * RADIUS cfg) * of_int (grid_n cfg - 2 * RADIUS cfg)"

definition f_active_points_r :: "config \<Rightarrow> dtype" where
  "f_active_points_r cfg =
     of_int (nr_true cfg - 2 * RADIUS cfg) * of_int (nr_true cfg - 2 * RADIUS cfg)"




definition reference_norm :: "config \<Rightarrow> dtype" where
  "reference_norm cfg = of_int (iterations cfg + 1) * (COEFX + COEFY)"

definition full_cycles :: "config \<Rightarrow> int" where
  "full_cycles cfg = (iterations cfg + 1) div (period cfg * 4)"

definition leftover_iterations :: "config \<Rightarrow> int" where
  "leftover_iterations cfg = (iterations cfg + 1) mod (period cfg * 4)"

definition iterations_r :: "config \<Rightarrow> int \<Rightarrow> int" where
  "iterations_r cfg g =
     sub_iterations cfg *
       (full_cycles cfg * duration cfg
        + min (max 0 (leftover_iterations cfg - g * period cfg)) (duration cfg))"

definition reference_norm_r :: "config \<Rightarrow> int \<Rightarrow> dtype" where
  "reference_norm_r cfg g = of_int (iterations_r cfg g) * (COEFX + COEFY)"

datatype message =
  ErrNorm dtype dtype
  | ErrNormR int dtype dtype
  | NotValidate
  | Validates
  | Rate dtype dtype

datatype exit_status = EXIT_SUCCESS | EXIT_FAILURE

record outcome =
  status :: exit_status
  printed :: "message list"
  throughput :: "dtype option"

text \<open>
  Lines 523-554: the flag \<^verbatim>\<open>validate\<close> and the error lines, first for the background
  grid and then for the refinements 0 to 3. \<open>nrm\<close> and \<open>nrm_r\<close> are the measured norms.
\<close>

definition verify_bg :: "config \<Rightarrow> dtype \<Rightarrow> bool \<times> message list" where
  "verify_bg cfg nrm =
     (if \<bar>nrm - reference_norm cfg\<bar> > EPSILON (DOUBLE cfg)
      then (False, [ErrNorm nrm (reference_norm cfg)])
      else (True, []))"

definition verify_r ::
  "config \<Rightarrow> (int \<Rightarrow> dtype) \<Rightarrow> int \<Rightarrow> bool \<times> message list \<Rightarrow> bool \<times> message list" where
  "verify_r cfg nrm_r g vm =
     (if \<bar>nrm_r g - reference_norm_r cfg g\<bar> > EPSILON (DOUBLE cfg)
      then (False, snd vm @ [ErrNormR g (nrm_r g) (reference_norm_r cfg g)])
      else vm)"

definition verify :: "config \<Rightarrow> dtype \<Rightarrow> (int \<Rightarrow> dtype) \<Rightarrow> bool \<times> message list" where
  "verify cfg nrm nrm_r = fold (verify_r cfg nrm_r) [0..3] (verify_bg cfg nrm)"

text \<open>
  Lines 563-573: the flop count. \<^verbatim>\<open>iterations_r[0]--\<close> is applied to the counts that
  the verification has already used.
\<close>

definition flops :: "config \<Rightarrow> int \<Rightarrow> dtype" where
  "flops cfg num_interp =
     (let f0 = f_active_points cfg * of_int (iterations cfg);
          it_r = (iterations_r cfg)(0 := iterations_r cfg 0 - 1);
          f1 = fold (\<lambda>g f. f + f_active_points_r cfg * of_int (it_r g)) [0..3] f0;
          f2 = f1 * of_int (2 * stencil_size (RADIUS cfg) (stencil cfg) + 1)
      in if r_level cfg > 0
         then f2 + of_int (nr_true cfg * (num_interp - 1) * 3 * (nr_true cfg + grid_nr cfg))
         else f2)"

text \<open>
  Lines 556-578. \<open>stencil_time\<close> is the measured wall-clock time, a parameter of the
  model. The rate printed is \<^verbatim>\<open>1.0E-06 * flops/stencil_time\<close>.
\<close>

definition report :: "config \<Rightarrow> dtype \<Rightarrow> (int \<Rightarrow> dtype) \<Rightarrow> dtype \<Rightarrow> int \<Rightarrow> outcome" where
  "report cfg nrm nrm_r stencil_time num_interp =
     (let vm = verify cfg nrm nrm_r
      in if \<not> fst vm
         then \<lparr>status = EXIT_FAILURE, printed = snd vm @ [NotValidate], throughput = None\<rparr>
         else (let rate = (1 / 1000000) * flops cfg num_interp / stencil_time
               in \<lparr>status = EXIT_SUCCESS,
                   printed = snd vm @ [Validates, Rate rate (stencil_time / of_int (iterations cfg))],
                   throughput = Some rate\<rparr>))"


subsection \<open>Closed forms and index sets used in the statements\<close>

text \<open>
  The values the star loop assigns at offset \<open>k\<close> along an axis, and the values the
  compact loop assigns on the sides (\<open>ring_val\<close>) and on the diagonal (\<open>diag_val\<close>) of
  the square of half-width \<open>jj\<close>.
\<close>

definition star_val :: "int \<Rightarrow> int \<Rightarrow> rat" where
  "star_val R k = (if 0 < k then 1 / (2 * of_int k * of_int R)
                   else - (1 / (2 * of_int (- k) * of_int R)))"




text \<open>
  What one execution of a loop body adds to \<^verbatim>\<open>OUT(i,j)\<close>, as a sum over the offsets in
  the order of the loops; \<open>fld ii jj\<close> stands for the input at offset \<open>(ii, jj)\<close>.
\<close>

definition star_sum :: "int \<Rightarrow> wtable \<Rightarrow> (int \<Rightarrow> int \<Rightarrow> rat) \<Rightarrow> rat" where
  "star_sum R w fld =
     (\<Sum>jj\<leftarrow>[- R..R]. w 0 jj * fld 0 jj)
     + (\<Sum>ii\<leftarrow>[- R..- 1]. w ii 0 * fld ii 0)
     + (\<Sum>ii\<leftarrow>[1..R]. w ii 0 * fld ii 0)"

definition compact_sum :: "int \<Rightarrow> wtable \<Rightarrow> (int \<Rightarrow> int \<Rightarrow> rat) \<Rightarrow> rat" where
  "compact_sum R w fld = (\<Sum>jj\<leftarrow>[- R..R]. \<Sum>ii\<leftarrow>[- R..R]. w ii jj * fld ii jj)"

definition response ::
  "shape \<Rightarrow> int \<Rightarrow> wtable \<Rightarrow> int \<Rightarrow> int \<Rightarrow> dtype list \<Rightarrow> int \<Rightarrow> int \<Rightarrow> dtype" where
  "response sh R w base S src i j =
     (case sh of
        Star \<Rightarrow> star_sum R w (\<lambda>ii jj. src ! IDX base S (i + ii) (j + jj))
      | Compact \<Rightarrow> compact_sum R w (\<lambda>ii jj. src ! IDX base S (i + ii) (j + jj)))"

text \<open>
  The points \<open>(j, i)\<close> in the order in which the untiled and the tiled loop nest visit
  them, the interior and the halo of a grid of side \<open>S\<close>, and all its cells in the
  order of the initialisation loops.
\<close>

definition interior_points :: "int \<Rightarrow> int \<Rightarrow> (int \<times> int) list" where
  "interior_points R S = List.product [R..S - R - 1] [R..S - R - 1]"

definition tile :: "int \<Rightarrow> int \<Rightarrow> int \<Rightarrow> int list" where
  "tile hi ts t = [t..min hi (t + ts) - 1]"

definition tiled_points :: "int \<Rightarrow> int \<Rightarrow> int \<Rightarrow> (int \<times> int) list" where
  "tiled_points R S ts =
     concat (map (\<lambda>jt. concat (map (\<lambda>it. List.product (tile (S - R) ts jt) (tile (S - R) ts it))
                                  (tile_starts R (S - R) ts)))
               (tile_starts R (S - R) ts))"

definition interior :: "int \<Rightarrow> int \<Rightarrow> int \<Rightarrow> int \<Rightarrow> bool" where
  "interior R S i j = (R \<le> i \<and> i < S - R \<and> R \<le> j \<and> j < S - R)"

definition halo :: "int \<Rightarrow> int \<Rightarrow> int \<Rightarrow> int \<Rightarrow> bool" where
  "halo R S i j = (0 \<le> i \<and> i < S \<and> 0 \<le> j \<and> j < S \<and> \<not> interior R S i j)"

definition all_points :: "int \<Rightarrow> (int \<times> int) list" where
  "all_points S = List.product [0..S - 1] [0..S - 1]"




text \<open>
  Scenario A of the specification (radius 2, star shape, \<open>n = 20\<close>, 5 iterations, no
  refinement level, \<open>nr = 4\<close>, period, duration and sub-iterations 1, untiled), and
  uninitialised memory of the allocated sizes for it.
\<close>

definition scenario_A :: config where
  "scenario_A =
     \<lparr>RADIUS = 2, stencil = Star, DOUBLE = True, iterations = 5, grid_n = 20, grid_nr = 4,
      r_level = 0, period = 1, duration = 1, sub_iterations = 1, tiling = False,
      tile_size = 20\<rparr>"

definition raw_A :: state where
  "raw_A =
     \<lparr>inb = replicate 400 7, outb = replicate 400 7, inr = replicate 100 7,
      outr = replicate 100 7, weight_tab = (\<lambda>ii jj. 7), weight_r_tab = (\<lambda>ii jj. 7),
      cur_g = 7, num_interpolations = 7\<rparr>"

text \<open>
  A validation failure: the measured norm of some grid differs from its reference by
  more than \<open>EPSILON\<close>.
\<close>

definition validation_failure :: "config \<Rightarrow> dtype \<Rightarrow> (int \<Rightarrow> dtype) \<Rightarrow> bool" where
  "validation_failure cfg nrm nrm_r =
     (\<bar>nrm - reference_norm cfg\<bar> > EPSILON (DOUBLE cfg)
      \<or> (\<exists>g\<in>{0..3}. \<bar>nrm_r g - reference_norm_r cfg g\<bar> > EPSILON (DOUBLE cfg)))"








section \<open>Properties\<close>

subsection \<open>The weight table in closed form\<close>

lemma fold_wset_row:
  "fold (\<lambda>ii. wset ii jj v) xs w = (\<lambda>a b. if b = jj \<and> a \<in> set xs then v else w a b)"
  by (induction xs arbitrary: w) (auto simp: wset_def fun_eq_iff)

lemma fold_wset_box:
  "fold (\<lambda>jj. fold (\<lambda>ii. wset ii jj v) xs) ys w =
     (\<lambda>a b. if b \<in> set ys \<and> a \<in> set xs then v else w a b)"
  by (induction ys arbitrary: w) (auto simp: fold_wset_row fun_eq_iff)

lemma weight_zero_eq:
  "weight_zero R w0 = (\<lambda>a b. if \<bar>a\<bar> \<le> R \<and> \<bar>b\<bar> \<le> R then 0 else w0 a b)"
  by (auto simp: weight_zero_def fold_wset_box fun_eq_iff)

lemma star_body_apply:
  "0 < k \<Longrightarrow> star_body R k w a b =
     (if b = 0 \<and> (a = k \<or> a = - k) then star_val R a
      else if a = 0 \<and> (b = k \<or> b = - k) then star_val R b
      else w a b)"
  by (simp add: star_body_def Let_def wset_def star_val_def)

lemma star_fold:
  "fold (star_body R) [1..int m] w a b =
     (if b = 0 \<and> a \<noteq> 0 \<and> \<bar>a\<bar> \<le> int m then star_val R a
      else if a = 0 \<and> b \<noteq> 0 \<and> \<bar>b\<bar> \<le> int m then star_val R b
      else w a b)"
proof (induction m arbitrary: a b)
  case 0
  show ?case by auto
next
  case (Suc m)
  have l: "[1..int (Suc m)] = [1..int m] @ [int m + 1]"
    using upto_rec2 [of 1 "int m + 1"] by (simp add: add.commute)
  have "fold (star_body R) [1..int (Suc m)] w a b
      = star_body R (int m + 1) (fold (star_body R) [1..int m] w) a b"
    by (simp only: l fold_append fold_simps comp_def)
  also have "\<dots> = (if b = 0 \<and> a \<noteq> 0 \<and> \<bar>a\<bar> \<le> int (Suc m) then star_val R a
      else if a = 0 \<and> b \<noteq> 0 \<and> \<bar>b\<bar> \<le> int (Suc m) then star_val R b
      else w a b)"
    by (simp add: star_body_apply Suc) auto
  finally show ?case .
qed

lemma weight_star_eq:
  assumes "0 \<le> R"
  shows "weight_star R w a b =
     (if b = 0 \<and> a \<noteq> 0 \<and> \<bar>a\<bar> \<le> R then star_val R a
      else if a = 0 \<and> b \<noteq> 0 \<and> \<bar>b\<bar> \<le> R then star_val R b
      else w a b)"
  using star_fold [of R "nat R" w a b] assms by (simp add: weight_star_def)






lemma weight_Star:
  assumes "0 \<le> R" "\<bar>a\<bar> \<le> R" "\<bar>b\<bar> \<le> R"
  shows "weight R Star w0 a b =
     (if b = 0 \<and> a \<noteq> 0 then star_val R a else if a = 0 \<and> b \<noteq> 0 then star_val R b else 0)"
  using assms by (simp add: weight_def weight_star_eq weight_zero_eq)


subsection \<open>Sums over symmetric ranges and the response to a linear field\<close>












subsection \<open>The loop nests as folds over their points\<close>

lemma length_accum [simp]: "length (accum k v out) = length out"
  by (simp add: accum_def)

lemma accum_accum: "accum k a (accum k b out) = accum k (b + a) out"
  by (cases "k < length out") (simp_all add: accum_def add.assoc list_update_beyond)

lemma accum_zero: "accum k 0 out = out"
  by (simp add: accum_def)

lemma fold_accum:
  "fold (\<lambda>x. accum k (f x)) xs out = accum k (sum_list (map f xs)) out"
  by (induction xs arbitrary: out) (simp_all add: accum_zero accum_accum)

lemma point_star_eq:
  "point_star R w base S src i j out =
     accum (IDX base S i j) (star_sum R w (\<lambda>ii jj. src ! IDX base S (i + ii) (j + jj))) out"
  by (simp add: point_star_def Let_def fold_accum accum_accum star_sum_def add.assoc)

lemma fold_fold_accum:
  "fold (\<lambda>y. fold (\<lambda>x. accum k (f x y)) xs) ys out =
     accum k (sum_list (map (\<lambda>y. sum_list (map (\<lambda>x. f x y) xs)) ys)) out"
  by (induction ys arbitrary: out) (simp_all add: accum_zero accum_accum fold_accum)

lemma point_compact_eq:
  "point_compact R w base S src i j out =
     accum (IDX base S i j) (compact_sum R w (\<lambda>ii jj. src ! IDX base S (i + ii) (j + jj))) out"
  by (simp add: point_compact_def fold_fold_accum compact_sum_def)

lemma point_eq:
  "point sh R w base S src i j =
     accum (IDX base S i j) (response sh R w base S src i j)"
  by (cases sh) (simp_all add: point_def response_def point_star_eq point_compact_eq fun_eq_iff)

lemma fold_product:
  "fold (\<lambda>j. fold (\<lambda>i. F i j) is) js = fold (\<lambda>p. F (snd p) (fst p)) (List.product js is)"
  by (induction js) (simp_all add: fold_map comp_def)

lemma fold_concat_map:
  "fold (\<lambda>x. fold g (h x)) xs = fold g (concat (map h xs))"
  by (induction xs) simp_all

lemma sweep_untiled_points:
  "sweep_untiled sh R w base S src =
     fold (\<lambda>p. accum (IDX base S (snd p) (fst p)) (response sh R w base S src (snd p) (fst p)))
       (interior_points R S)"
  by (simp add: sweep_untiled_def interior_points_def fold_product point_eq)

lemma sweep_tiled_points:
  "sweep_tiled sh R w base S ts src =
     fold (\<lambda>p. accum (IDX base S (snd p) (fst p)) (response sh R w base S src (snd p) (fst p)))
       (tiled_points R S ts)"
  by (simp add: sweep_tiled_def tiled_points_def tile_def fold_product point_eq fold_concat_map)

lemma length_fold_accum [simp]:
  "length (fold (\<lambda>p. accum (K p) (V p)) ps out) = length out"
  by (induction ps arbitrary: out) simp_all

lemma nth_accum:
  "m < length out \<Longrightarrow> accum k v out ! m = (if k = m then out ! m + v else out ! m)"
  by (simp add: accum_def nth_list_update)

lemma nth_fold_accum:
  "m < length out \<Longrightarrow>
     fold (\<lambda>p. accum (K p) (V p)) ps out ! m
       = out ! m + sum_list (map V (filter (\<lambda>p. K p = m) ps))"
  by (induction ps arbitrary: out) (simp_all add: nth_accum)

lemma fold_accum_mset:
  assumes "mset ps = mset qs"
  shows "fold (\<lambda>p. accum (K p) (V p)) ps out = fold (\<lambda>p. accum (K p) (V p)) qs out"
proof (rule nth_equalityI)
  show "length (fold (\<lambda>p. accum (K p) (V p)) ps out) = length (fold (\<lambda>p. accum (K p) (V p)) qs out)"
    by simp
next
  fix m assume "m < length (fold (\<lambda>p. accum (K p) (V p)) ps out)"
  then have m: "m < length out" by simp
  have "mset (map V (filter (\<lambda>p. K p = m) ps)) = mset (map V (filter (\<lambda>p. K p = m) qs))"
    using assms by (metis mset_filter mset_map)
  then have "sum_list (map V (filter (\<lambda>p. K p = m) ps)) = sum_list (map V (filter (\<lambda>p. K p = m) qs))"
    by (metis sum_mset_sum_list)
  then show "fold (\<lambda>p. accum (K p) (V p)) ps out ! m = fold (\<lambda>p. accum (K p) (V p)) qs out ! m"
    using m by (simp add: nth_fold_accum)
qed

lemma concat_tiles:
  "0 < ts \<Longrightarrow> concat (map (tile hi ts) (tile_starts lo hi ts)) = [lo..hi - 1]"
proof (induction lo hi ts rule: tile_starts.induct)
  case (1 lo hi ts)
  show ?case
  proof (cases "lo < hi")
    case False
    then show ?thesis by (subst tile_starts.simps) simp
  next
    case True
    with 1 have IH: "concat (map (tile hi ts) (tile_starts (lo + ts) hi ts)) = [lo + ts..hi - 1]"
      by simp
    have "concat (map (tile hi ts) (tile_starts lo hi ts))
        = [lo..min hi (lo + ts) - 1] @ [lo + ts..hi - 1]"
      using True 1(2) IH by (subst tile_starts.simps) (simp add: tile_def)
    also have "\<dots> = [lo..hi - 1]"
    proof (cases "hi \<le> lo + ts")
      case True
      then show ?thesis by (simp add: min_def)
    next
      case False
      then have "min hi (lo + ts) - 1 = lo + ts - 1" by simp
      moreover have "[lo..hi - 1] = [lo..lo + ts - 1] @ [lo + ts..hi - 1]"
        using False 1(2) upto_split1 [of lo "lo + ts" "hi - 1"] by simp
      ultimately show ?thesis by simp
    qed
    finally show ?thesis .
  qed
qed

lemma mset_product_append2:
  "mset (List.product xs (ys @ zs)) = mset (List.product xs ys) + mset (List.product xs zs)"
  by (induction xs) simp_all

lemma product_Nil2: "List.product xs [] = []"
  by (induction xs) simp_all

lemma mset_concat_product2:
  "mset (concat (map (\<lambda>y. List.product xs (B y)) ys)) = mset (List.product xs (concat (map B ys)))"
  by (induction ys) (simp_all add: mset_product_append2 product_Nil2)

lemma product_append1:
  "List.product (xs @ ys) zs = List.product xs zs @ List.product ys zs"
  by (induction xs) simp_all

lemma mset_concat_product:
  "mset (concat (map (\<lambda>x. concat (map (\<lambda>y. List.product (A x) (B y)) ys)) xs))
     = mset (List.product (concat (map A xs)) (concat (map B ys)))"
  by (induction xs) (simp_all add: mset_concat_product2 product_append1)

lemma mset_tiled_points:
  "0 < ts \<Longrightarrow> mset (tiled_points R S ts) = mset (interior_points R S)"
  by (simp add: tiled_points_def interior_points_def mset_concat_product concat_tiles)

lemma sweep_tiled_untiled:
  "0 < ts \<Longrightarrow> sweep_tiled sh R w base S ts src out = sweep_untiled sh R w base S src out"
  unfolding sweep_tiled_points sweep_untiled_points
  by (rule fold_accum_mset) (rule mset_tiled_points)

subsection \<open>Cells, indices and the effect of a sweep\<close>

lemma cell_eq:
  fixes S :: int
  assumes "i + j * S = i' + j' * S" "0 \<le> i" "i < S" "0 \<le> i'" "i' < S"
  shows "i = i' \<and> j = j'"
proof -
  have "(i + j * S) mod S = (i' + j' * S) mod S" using assms(1) by simp
  moreover have "(i + j * S) mod S = i" "(i' + j' * S) mod S = i'"
    using assms(2-5) by simp_all
  ultimately have i: "i = i'" by simp
  then have "j * S = j' * S" using assms(1) by simp
  then show ?thesis using i assms by simp
qed

lemma IDX_inj:
  assumes "IDX base S i j = IDX base S i' j'" "0 \<le> base"
    "0 \<le> i" "i < S" "0 \<le> j" "0 \<le> i'" "i' < S" "0 \<le> j'"
  shows "i = i' \<and> j = j'"
proof -
  have "0 \<le> j * S" "0 \<le> j' * S" using assms by simp_all
  then have "0 \<le> base + i + j * S" "0 \<le> base + i' + j' * S" using assms by simp_all
  moreover have "nat (base + i + j * S) = nat (base + i' + j' * S)"
    using assms(1) by (simp add: IDX_def)
  ultimately have "base + i + j * S = base + i' + j' * S"
    by (simp only: eq_nat_nat_iff)
  then have "i + j * S = i' + j' * S" by simp
  then show ?thesis using assms by (intro cell_eq) auto
qed

lemma cell_bound:
  fixes S :: int
  assumes "0 \<le> i" "i < S" "0 \<le> j" "j < S"
  shows "0 \<le> i + j * S" "i + j * S < S * S"
proof -
  show "0 \<le> i + j * S" using assms by simp
  have "j * S \<le> (S - 1) * S" using assms by (intro mult_right_mono) auto
  then show "i + j * S < S * S" using assms by (simp add: algebra_simps)
qed

lemma IDX_less:
  assumes "0 \<le> base" "0 \<le> i" "i < S" "0 \<le> j" "j < S" "nat (base + S * S) \<le> length out"
  shows "IDX base S i j < length out"
  using cell_bound [OF assms(2-5)] assms(1,6) by (simp add: IDX_def)

lemma set_interior_points:
  "p \<in> set (interior_points R S) \<longleftrightarrow> interior R S (snd p) (fst p)"
  by (cases p) (auto simp: interior_points_def interior_def)




lemma sweep_untiled_frame:
  assumes "m < length out" "\<And>i j. interior R S i j \<Longrightarrow> IDX base S i j \<noteq> m"
  shows "sweep_untiled sh R w base S src out ! m = out ! m"
proof -
  have "filter (\<lambda>p. IDX base S (snd p) (fst p) = m) (interior_points R S) = []"
    using assms(2) by (auto simp: filter_empty_conv set_interior_points)
  then show ?thesis
    using assms(1) by (simp add: sweep_untiled_points nth_fold_accum)
qed

lemma length_sweep_untiled [simp]:
  "length (sweep_untiled sh R w base S src out) = length out"
  by (simp add: sweep_untiled_points)

lemma apply_stencil_untiled:
  "tiled \<longrightarrow> 0 < ts \<Longrightarrow>
     apply_stencil sh R tiled ts w base S src out = sweep_untiled sh R w base S src out"
  by (simp add: apply_stencil_def sweep_tiled_untiled)



subsection \<open>Counting the nonzero star weights\<close>

lemma star_val_nonzero: "1 \<le> R \<Longrightarrow> k \<noteq> 0 \<Longrightarrow> star_val R k \<noteq> 0"
  by (simp add: star_val_def)

lemma card_nonzero_range: "0 \<le> R \<Longrightarrow> card ({- R..R} - {0::int}) = nat (2 * R)"
  by (simp add: card_Diff_singleton)

lemma star_nonzero_count:
  assumes "1 \<le> R"
  shows "nonzero_count R (weight R Star w0) = nat (4 * R)"
proof -
  let ?w = "weight R Star w0"
  let ?N = "{- R..R} - {0::int}"
  have d: "distinct (List.product [- R..R] [- R..R])"
    by (simp add: distinct_product)
  have "nonzero_count R ?w = card ({p. ?w (snd p) (fst p) \<noteq> 0} \<inter> set (List.product [- R..R] [- R..R]))"
    unfolding nonzero_count_def using d by (rule distinct_length_filter)
  also have "{p. ?w (snd p) (fst p) \<noteq> 0} \<inter> set (List.product [- R..R] [- R..R])
       = (\<lambda>k. (0, k)) ` ?N \<union> (\<lambda>k. (k, 0)) ` ?N"
    using assms by (auto simp: weight_Star star_val_nonzero split: if_splits)
  also have "card \<dots> = card ((\<lambda>k. (0::int, k)) ` ?N) + card ((\<lambda>k. (k, 0::int)) ` ?N)"
    by (rule card_Un_disjoint) auto
  also have "\<dots> = nat (2 * R) + nat (2 * R)"
    using assms by (simp add: card_image inj_on_def card_nonzero_range del: card_Diff_insert)
  also have "\<dots> = nat (4 * R)" using assms by simp
  finally show ?thesis .
qed

subsection \<open>The refinement schedule\<close>



lemma upto_snoc: "0 \<le> k \<Longrightarrow> [0..k] = [0..k - 1] @ [k]"
  by (rule upto_rec2) simp













lemma valid_configD:
  assumes "valid_config cfg"
  shows "1 \<le> iterations cfg" "2 \<le> grid_n cfg" "1 \<le> grid_nr cfg" "grid_nr cfg < grid_n cfg"
    "0 \<le> r_level cfg" "1 \<le> period cfg" "1 \<le> duration cfg" "duration cfg \<le> period cfg"
    "1 \<le> sub_iterations cfg" "1 \<le> RADIUS cfg" "2 * RADIUS cfg + 1 \<le> grid_n cfg"
    "2 * RADIUS cfg + 1 \<le> nr_true cfg" "tiling cfg \<longrightarrow> 0 < tile_size cfg"
  using assms by (auto simp: valid_config_def check_config_def split: if_splits)


subsection \<open>The scenario and the Validator\<close>

lemma upto_0_3: "[0..3::int] = [0, 1, 2, 3]"
  by (simp add: upto_rec1)

lemma expand_pow: "0 \<le> int k \<Longrightarrow> fold (\<lambda>l e. e * 2) [0..int k - 1] (1::int) = 2 ^ k"
proof (induction k)
  case 0
  show ?case by simp
next
  case (Suc k)
  have "[0..int (Suc k) - 1] = [0..int k - 1] @ [int k]"
    using upto_snoc [of "int k"] by simp
  then show ?case using Suc by simp
qed

lemma expand_eq: "0 \<le> r_level cfg \<Longrightarrow> expand cfg = 2 ^ nat (r_level cfg)"
  using expand_pow [of "nat (r_level cfg)"] by (simp add: expand_def)

lemma valid_scenario_A: "valid_config scenario_A"
  by (simp add: valid_config_def check_config_def scenario_A_def nr_true_def expand_def)


lemma set_0_3: "{0..3::int} = {0, 1, 2, 3}"
  by auto

lemma fst_verify:
  "fst (verify cfg nrm nrm_r) \<longleftrightarrow> \<not> validation_failure cfg nrm nrm_r"
  by (simp add: verify_def upto_0_3 verify_r_def verify_bg_def validation_failure_def set_0_3)

lemma Rate_not_in_verify_r:
  "Rate a b \<notin> set (snd vm) \<Longrightarrow> Rate a b \<notin> set (snd (verify_r cfg nrm_r g vm))"
  by (simp add: verify_r_def)

lemma Rate_not_in_verify: "Rate a b \<notin> set (snd (verify cfg nrm nrm_r))"
  by (simp add: verify_def upto_0_3 Rate_not_in_verify_r verify_bg_def)

lemma snd_fold_verify_r:
  "snd (fold (verify_r cfg nrm_r) gs vm)
     = snd vm @ map (\<lambda>g. ErrNormR g (nrm_r g) (reference_norm_r cfg g))
                  (filter (\<lambda>g. \<bar>nrm_r g - reference_norm_r cfg g\<bar> > EPSILON (DOUBLE cfg)) gs)"
  by (induction gs arbitrary: vm) (simp_all add: verify_r_def)

lemma snd_verify:
  "snd (verify cfg nrm nrm_r)
     = (if \<bar>nrm - reference_norm cfg\<bar> > EPSILON (DOUBLE cfg)
        then [ErrNorm nrm (reference_norm cfg)] else [])
       @ map (\<lambda>g. ErrNormR g (nrm_r g) (reference_norm_r cfg g))
           (filter (\<lambda>g. \<bar>nrm_r g - reference_norm_r cfg g\<bar> > EPSILON (DOUBLE cfg)) [0..3])"
  by (simp add: verify_def snd_fold_verify_r verify_bg_def)

lemma no_failure_filter:
  "\<not> validation_failure cfg nrm nrm_r \<Longrightarrow>
     filter (\<lambda>g. \<bar>nrm_r g - reference_norm_r cfg g\<bar> > EPSILON (DOUBLE cfg)) [0..3] = []"
  by (auto simp: validation_failure_def filter_empty_conv)


subsection \<open>Initialisation and the background grid through the iterations\<close>

lemma IDX_less0:
  assumes "0 \<le> i" "i < S" "0 \<le> j" "j < S" "nat (S * S) \<le> length out"
  shows "IDX 0 S i j < length out"
  using assms by (intro IDX_less) simp_all



lemma length_fold_update [simp]:
  "length (fold (\<lambda>q b. b[K q := V q]) ps b) = length b"
  by (induction ps arbitrary: b) simp_all


lemma nth_fold_update_other:
  assumes "\<And>q. q \<in> set ps \<Longrightarrow> K q \<noteq> m"
  shows "fold (\<lambda>q b. b[K q := V q]) ps b ! m = b ! m"
  using assms by (induction ps arbitrary: b) simp_all

lemma init_in_points:
  "init_in n = fold (\<lambda>p b. b[IDX 0 n (snd p) (fst p) := COEFX * of_int (snd p) + COEFY * of_int (fst p)])
                 (all_points n)"
  by (simp add: init_in_def all_points_def fold_product)

lemma length_init_in [simp]: "length (init_in n b) = length b"
  by (simp add: init_in_points)


lemma zero_interior_points:
  "zero_interior R base S = fold (\<lambda>p b. b[IDX base S (snd p) (fst p) := 0]) (interior_points R S)"
  by (simp add: zero_interior_def interior_points_def fold_product)

lemma length_zero_interior [simp]: "length (zero_interior R base S b) = length b"
  by (simp add: zero_interior_points)


lemma add_one_points:
  "add_one base S = fold (\<lambda>p. accum (IDX base S (snd p) (fst p)) 1) (all_points S)"
  by (simp add: add_one_def all_points_def fold_product)

lemma length_add_one [simp]: "length (add_one base S b) = length b"
  by (simp add: add_one_points)


lemma length_apply_stencil [simp]:
  "length (apply_stencil sh R tiled ts w base S src out) = length out"
  by (simp add: apply_stencil_def sweep_untiled_points sweep_tiled_points)

lemma inb_birth [simp]: "inb (birth cfg iter s) = inb s"
  by (simp add: birth_def Let_def)
lemma outb_birth [simp]: "outb (birth cfg iter s) = outb s"
  by (simp add: birth_def Let_def)
lemma weight_tab_birth [simp]: "weight_tab (birth cfg iter s) = weight_tab s"
  by (simp add: birth_def Let_def)
lemma inb_refine [simp]: "inb (refine cfg iter s) = inb s"
  by (simp add: refine_def Let_def)
lemma outb_refine [simp]: "outb (refine cfg iter s) = outb s"
  by (simp add: refine_def Let_def)
lemma weight_tab_refine [simp]: "weight_tab (refine cfg iter s) = weight_tab s"
  by (simp add: refine_def Let_def)

















subsection \<open>What a stencil application leaves unchanged\<close>

lemma apply_stencil_frame:
  assumes "tiled \<longrightarrow> 0 < ts" "m < length out"
    "\<And>i j. interior R S i j \<Longrightarrow> IDX base S i j \<noteq> m"
  shows "apply_stencil sh R tiled ts w base S src out ! m = out ! m"
  using assms by (simp add: apply_stencil_untiled sweep_untiled_frame)

lemma fold_apply_stencil_frame:
  assumes "tiled \<longrightarrow> 0 < ts" "m < length out"
    "\<And>i j. interior R S i j \<Longrightarrow> IDX base S i j \<noteq> m"
  shows "fold (\<lambda>sub_iter. apply_stencil sh R tiled ts w base S src) xs out ! m = out ! m"
  using assms(2)
proof (induction xs arbitrary: out)
  case Nil
  show ?case by simp
next
  case (Cons x xs)
  have "fold (\<lambda>sub_iter. apply_stencil sh R tiled ts w base S src) xs
          (apply_stencil sh R tiled ts w base S src out) ! m
        = apply_stencil sh R tiled ts w base S src out ! m"
    by (rule Cons.IH) (simp add: Cons.prems)
  also have "\<dots> = out ! m"
    using assms(1) Cons.prems assms(3) by (rule apply_stencil_frame)
  finally show ?case by simp
qed

lemma patch_IDX_inj:
  assumes "IDX (g * (N * N)) N i j = IDX (g' * (N * N)) N i' j'"
    "0 \<le> g" "0 \<le> g'" "0 \<le> i" "i < N" "0 \<le> j" "j < N" "0 \<le> i'" "i' < N" "0 \<le> j'" "j' < N"
  shows "g = g' \<and> i = i' \<and> j = j'"
proof -
  note c = cell_bound [OF assms(4-7)] and c' = cell_bound [OF assms(8-11)]
  have "0 \<le> g * (N * N)" "0 \<le> g' * (N * N)" using assms(2,3) by simp_all
  then have "0 \<le> g * (N * N) + i + j * N" "0 \<le> g' * (N * N) + i' + j' * N"
    using c(1) c'(1) by linarith+
  moreover have "nat (g * (N * N) + i + j * N) = nat (g' * (N * N) + i' + j' * N)"
    using assms(1) by (simp add: IDX_def)
  ultimately have "g * (N * N) + i + j * N = g' * (N * N) + i' + j' * N"
    by (simp only: eq_nat_nat_iff)
  then have "(i + j * N) + g * (N * N) = (i' + j' * N) + g' * (N * N)" by simp
  then have e: "i + j * N = i' + j' * N \<and> g = g'"
    using c c' by (intro cell_eq) auto
  then have "i = i' \<and> j = j'"
    using assms by (intro cell_eq) auto
  then show ?thesis using e by simp
qed

lemma patch_IDX_less:
  assumes "0 \<le> g" "g \<le> 3" "0 \<le> i" "i < N" "0 \<le> j" "j < N"
  shows "IDX (g * (N * N)) N i j < nat (4 * N * N)"
proof -
  note c = cell_bound [OF assms(3-6)]
  have "(g + 1) * (N * N) \<le> 4 * (N * N)"
    using assms(2) by (intro mult_right_mono) auto
  then have "g * (N * N) + i + j * N < 4 * N * N"
    using c(2) by (simp add: algebra_simps)
  moreover have "0 \<le> g * (N * N)" using assms(1) by simp
  ultimately show ?thesis using c(1) by (simp add: IDX_def)
qed

lemma outr_refine:
  "outr (refine cfg iter s) =
     (if iter mod period cfg < duration cfg
      then fold (\<lambda>sub_iter.
             apply_stencil (stencil cfg) (RADIUS cfg) (tiling cfg) (tile_size cfg)
               (weight_r_tab s) (patch_base cfg (cur_g s)) (nr_true cfg) (inr s))
           [0..sub_iterations cfg - 1] (outr s)
      else outr s)"
  by (simp add: refine_def Let_def)

subsection \<open>The scaled weights and the mesh spacing\<close>








lemma hr_pow: "fold (\<lambda>l h. h / 2) [0..int k - 1] (1::rat) = 1 / 2 ^ k"
proof (induction k)
  case 0
  show ?case by simp
next
  case (Suc k)
  have "[0..int (Suc k) - 1] = [0..int k - 1] @ [int k]"
    using upto_snoc [of "int k"] by simp
  then show ?case using Suc by simp
qed

lemma hr_eq: "0 \<le> r_level cfg \<Longrightarrow> hr cfg = 1 / 2 ^ nat (r_level cfg)"
  using hr_pow [of "nat (r_level cfg)"] by (simp add: hr_def)


lemma hr_one_iff:
  assumes "0 \<le> r_level cfg"
  shows "hr cfg = 1 \<longleftrightarrow> expand cfg = 1"
proof -
  have "(1 / 2 ^ nat (r_level cfg) = (1::rat)) \<longleftrightarrow> ((2::rat) ^ nat (r_level cfg) = 1)"
    by (simp add: field_simps)
  also have "\<dots> \<longleftrightarrow> ((2::int) ^ nat (r_level cfg) = 1)"
  proof -
    have "(2::rat) ^ nat (r_level cfg) = of_int (2 ^ nat (r_level cfg))" by simp
    then show ?thesis by (simp only: of_int_eq_1_iff)
  qed
  finally show ?thesis using assms by (simp add: expand_eq hr_eq)
qed

subsection \<open>The Interpolator on a linear field: one row\<close>










subsection \<open>The Interpolator on a linear field: the two passes\<close>







lemma length_fold_pres:
  assumes "\<And>x b. length (F x b) = length b"
  shows "length (fold F xs b) = length b"
  by (induction xs arbitrary: b) (simp_all add: assms)

lemma length_interp_x_row: "length (interp_x_row base src n nrt rsi ex h jr jb b) = length b"
  by (simp add: interp_x_row_def Let_def length_fold_pres)

lemma length_interp_x: "length (interp_x base src n nrt rsi ex h jr jb b) = length b"
proof (induction base src n nrt rsi ex h jr jb b rule: interp_x.induct)
  case (1 base src n nrt rsi ex h jr jb b)
  show ?case
  proof (cases "jr < nrt \<and> 0 < ex")
    case True
    then show ?thesis
      using 1 by (subst interp_x.simps) (simp add: length_interp_x_row)
  next
    case False
    then show ?thesis by (subst interp_x.simps) auto
  qed
qed

lemma length_interpolate: "length (interpolate base src n nrt rsi rsj ex h b) = length b"
proof -
  have "length (interp_copy base src n nrt rsi rsj b) = length b"
    unfolding interp_copy_def by (intro length_fold_pres) simp
  moreover have "length (interp_y base nrt ex h b') = length b'" for b'
    unfolding interp_y_def by (intro length_fold_pres) (simp add: Let_def length_fold_pres)
  ultimately show ?thesis
    by (simp add: interpolate_def length_interp_x)
qed

subsection \<open>The refinement input after a birth\<close>



lemma inr_refine:
  "inr (refine cfg iter s) =
     (if iter mod period cfg < duration cfg
      then add_one (patch_base cfg (cur_g s)) (nr_true cfg) (inr s) else inr s)"
  by (simp add: refine_def Let_def)

lemma cur_g_refine [simp]: "cur_g (refine cfg iter s) = cur_g s"
  by (simp add: refine_def Let_def)

lemma weight_r_tab_refine [simp]: "weight_r_tab (refine cfg iter s) = weight_r_tab s"
  by (simp add: refine_def Let_def)

lemma weight_r_tab_birth [simp]: "weight_r_tab (birth cfg iter s) = weight_r_tab s"
  by (simp add: birth_def Let_def)

lemma outr_birth [simp]: "outr (birth cfg iter s) = outr s"
  by (simp add: birth_def Let_def)

lemma inr_birth:
  "inr (birth cfg iter s) =
     (if iter mod period cfg = 0
      then interpolate (patch_base cfg ((iter div period cfg) mod 4)) (inb s) (grid_n cfg)
             (nr_true cfg) (rstarti cfg ! nat ((iter div period cfg) mod 4))
             (rstartj cfg ! nat ((iter div period cfg) mod 4)) (expand cfg) (hr cfg) (inr s)
      else inr s)"
  by (simp add: birth_def Let_def)



lemma length_inr_birth [simp]: "length (inr (birth cfg iter s)) = length (inr s)"
  by (simp add: inr_birth length_interpolate)

lemma length_inr_refine [simp]: "length (inr (refine cfg iter s)) = length (inr s)"
  by (simp add: inr_refine)

lemma length_fold_apply_stencil [simp]:
  "length (fold (\<lambda>sub_iter. apply_stencil sh R tiled ts w base S src) xs out) = length out"
  by (induction xs arbitrary: out) simp_all

lemma length_outr_refine [simp]: "length (outr (refine cfg iter s)) = length (outr s)"
  by (simp add: outr_refine)

lemma length_zero_all [simp]: "length (zero_all base S b) = length b"
  unfolding zero_all_def by (intro length_fold_pres) (simp add: length_fold_pres)







subsection \<open>The refinement output and the measured norms\<close>













section \<open>The claims\<close>

subsection \<open>Linearity of the stencil response\<close>



subsection \<open>The norm of the background grid\<close>



subsection \<open>Active iterations of a corner\<close>



subsection \<open>The reference norm of corner 0\<close>




subsection \<open>Validation failure and the throughput figure\<close>

text \<open>
  C5, as stated, has the throughput computed and reported when validation fails. With
  measured norms 0 on every grid in scenario A, validation fails, the program prints
  the five error lines and \<^verbatim>\<open>Solution does not validate\<close> and exits with failure:
  no rate is computed or printed.
\<close>

theorem validation_failure_counterexample:
  "validation_failure scenario_A 0 (\<lambda>g. 0)
   \<and> status (report scenario_A 0 (\<lambda>g. 0) 1 6) = EXIT_FAILURE
   \<and> throughput (report scenario_A 0 (\<lambda>g. 0) 1 6) = None
   \<and> printed (report scenario_A 0 (\<lambda>g. 0) 1 6)
       = [ErrNorm 0 12, ErrNormR 0 0 4, ErrNormR 1 0 4, ErrNormR 2 0 2, ErrNormR 3 0 2,
          NotValidate]"
  by (simp add: validation_failure_def report_def verify_def upto_0_3 verify_r_def verify_bg_def
      reference_norm_def reference_norm_r_def iterations_r_def full_cycles_def
      leftover_iterations_def EPSILON_def COEFX_def COEFY_def scenario_A_def)

text \<open>
  C5, amended. When any grid's measured L1 norm differs from its reference by more than
  \<open>EPSILON\<close>, the program prints the error line of each failing grid, with the measured
  and the reference norm, in the order background, refinement 0 to 3, and no error line
  for a grid that validates; it then prints \<^verbatim>\<open>Solution does not validate\<close> and exits
  with failure status without computing or reporting the throughput. The throughput
  figure is computed and reported, after \<^verbatim>\<open>Solution validates\<close> and with exit status
  success, exactly when every grid validates.
\<close>

theorem report_after_validation:
  "(validation_failure cfg nrm nrm_r \<longrightarrow>
      status (report cfg nrm nrm_r stencil_time k) = EXIT_FAILURE
      \<and> throughput (report cfg nrm nrm_r stencil_time k) = None
      \<and> printed (report cfg nrm nrm_r stencil_time k)
          = (if \<bar>nrm - reference_norm cfg\<bar> > EPSILON (DOUBLE cfg)
             then [ErrNorm nrm (reference_norm cfg)] else [])
            @ map (\<lambda>g. ErrNormR g (nrm_r g) (reference_norm_r cfg g))
                (filter (\<lambda>g. \<bar>nrm_r g - reference_norm_r cfg g\<bar> > EPSILON (DOUBLE cfg)) [0..3])
            @ [NotValidate])
   \<and> (\<not> validation_failure cfg nrm nrm_r \<longrightarrow>
      status (report cfg nrm nrm_r stencil_time k) = EXIT_SUCCESS
      \<and> throughput (report cfg nrm nrm_r stencil_time k)
          = Some ((1 / 1000000) * flops cfg k / stencil_time)
      \<and> printed (report cfg nrm nrm_r stencil_time k)
          = [Validates, Rate ((1 / 1000000) * flops cfg k / stencil_time)
              (stencil_time / of_int (iterations cfg))])"
  using fst_verify [of cfg nrm nrm_r] no_failure_filter [of cfg nrm nrm_r]
  by (auto simp add: report_def Let_def snd_verify validation_failure_def)

theorem report_after_validation_witness:
  "validation_failure scenario_A 1 (\<lambda>g. 4)
   \<and> status (report scenario_A 1 (\<lambda>g. 4) 1 6) = EXIT_FAILURE
   \<and> throughput (report scenario_A 1 (\<lambda>g. 4) 1 6) = None
   \<and> printed (report scenario_A 1 (\<lambda>g. 4) 1 6)
       = [ErrNorm 1 12, ErrNormR 2 4 2, ErrNormR 3 4 2, NotValidate]"
proof -
  have f: "validation_failure scenario_A 1 (\<lambda>g. 4)"
    by (simp add: validation_failure_def reference_norm_def EPSILON_def COEFX_def COEFY_def
        scenario_A_def)
  have r: "reference_norm scenario_A = 12" "reference_norm_r scenario_A 0 = 4"
    "reference_norm_r scenario_A 1 = 4" "reference_norm_r scenario_A 2 = 2"
    "reference_norm_r scenario_A 3 = 2"
    by (simp_all add: reference_norm_def reference_norm_r_def iterations_r_def full_cycles_def
        leftover_iterations_def COEFX_def COEFY_def scenario_A_def)
  have e: "EPSILON (DOUBLE scenario_A) = 1 / 100000000"
    by (simp add: EPSILON_def scenario_A_def)
  show ?thesis
    using f report_after_validation [of scenario_A 1 "\<lambda>g. 4" 1 6]
    by (simp add: upto_0_3 r e)
qed

subsection \<open>One active corner at a time\<close>



subsection \<open>Tiled and untiled loop order\<close>

text \<open>
  C7. For every input buffer, weight table, output buffer and positive tile size, the
  tiled and the untiled loop nest leave the same output buffer; in particular they
  write the same value to every interior point.
\<close>

theorem tiled_equals_untiled:
  assumes "0 < ts"
  shows "apply_stencil sh R True ts w base S src out
           = apply_stencil sh R False ts' w base S src out"
  using assms by (simp add: apply_stencil_def sweep_tiled_untiled)

theorem tiled_equals_untiled_witness:
  "apply_stencil Star 1 True 2 (weight 1 Star (\<lambda>ii jj. 0)) 0 4
       [0, 1, 2, 3, 1, 2, 3, 4, 2, 3, 4, 5, 3, 4, 5, 6] (replicate 16 0)
     = apply_stencil Star 1 False 4 (weight 1 Star (\<lambda>ii jj. 0)) 0 4
       [0, 1, 2, 3, 1, 2, 3, 4, 2, 3, 4, 5, 3, 4, 5, 6] (replicate 16 0)"
  by (rule tiled_equals_untiled) simp

subsection \<open>The star weights\<close>

text \<open>
  C8, as stated, asks for \<open>4*RADIUS+1\<close> nonzero entries in the star table. At radius 1
  the table has four nonzero entries, not five: the centre weight is zero.
\<close>

theorem star_weights_counterexample:
  "nonzero_count 1 (weight 1 Star (\<lambda>ii jj. 0)) \<noteq> nat (4 * 1 + 1)"
  by (simp add: star_nonzero_count)

text \<open>
  C8, amended. For the star shape at radius \<open>R \<ge> 1\<close>, the entries of the table are
  nonzero only on the centre row and the centre column, away from the centre: at offset
  \<open>k\<close> along an axis the weight is \<open>1/(2*k*R)\<close> beyond the centre and \<open>-1/(2*k*R)\<close>
  before it, and every other entry, the centre included, is zero. The table has
  \<open>4*R\<close> nonzero entries; \<open>stencil_size\<close>, which counts the centre point too, is
  \<open>4*R+1\<close>.
\<close>

theorem star_weights:
  assumes "1 \<le> R" and "\<bar>ii\<bar> \<le> R" and "\<bar>jj\<bar> \<le> R"
  shows "weight R Star w0 ii jj =
           (if jj = 0 \<and> 0 < ii then 1 / (2 * of_int ii * of_int R)
            else if jj = 0 \<and> ii < 0 then - (1 / (2 * of_int (- ii) * of_int R))
            else if ii = 0 \<and> 0 < jj then 1 / (2 * of_int jj * of_int R)
            else if ii = 0 \<and> jj < 0 then - (1 / (2 * of_int (- jj) * of_int R))
            else 0)
         \<and> nonzero_count R (weight R Star w0) = nat (4 * R)
         \<and> stencil_size R Star = 4 * R + 1"
  using assms by (auto simp: weight_Star star_val_def star_nonzero_count stencil_size_def)

theorem star_weights_witness:
  "weight 2 Star (\<lambda>ii jj. 3) (- 2) 0 = - (1 / 8)
   \<and> nonzero_count 2 (weight 2 Star (\<lambda>ii jj. 3)) = 8
   \<and> stencil_size 2 Star = 9"
  using star_weights [of 2 "- 2" 0 "\<lambda>ii jj. 3"] by simp

subsection \<open>The halo is never written\<close>

text \<open>
  C9. In a valid configuration with buffers of the allocated sizes, a stencil
  application writes no halo cell: the pass over the background grid leaves every cell
  of \<^verbatim>\<open>out\<close> within \<open>RADIUS\<close> of an edge unchanged, and the sub-iterations on the live
  refinement \<^verbatim>\<open>g\<close> leave the halo cells of every refinement patch of \<^verbatim>\<open>outr\<close> unchanged.
\<close>

theorem halo_unchanged:
  assumes "valid_config cfg" and "well_sized cfg s" and "0 \<le> cur_g s" and "cur_g s \<le> 3"
  shows "(\<forall>i j. halo (RADIUS cfg) (grid_n cfg) i j \<longrightarrow>
            outb (background cfg s) ! IDX 0 (grid_n cfg) i j = outb s ! IDX 0 (grid_n cfg) i j)
         \<and> (\<forall>g i j. 0 \<le> g \<and> g \<le> 3 \<and> halo (RADIUS cfg) (nr_true cfg) i j \<longrightarrow>
            outr (refine cfg iter s) ! IDX (patch_base cfg g) (nr_true cfg) i j
              = outr s ! IDX (patch_base cfg g) (nr_true cfg) i j)"
proof (intro conjI allI impI)
  note c = valid_configD [OF assms(1)]
  fix i j :: int assume h: "halo (RADIUS cfg) (grid_n cfg) i j"
  have "apply_stencil (stencil cfg) (RADIUS cfg) (tiling cfg) (tile_size cfg) (weight_tab s)
          0 (grid_n cfg) (inb s) (outb s) ! IDX 0 (grid_n cfg) i j
        = outb s ! IDX 0 (grid_n cfg) i j"
  proof (rule apply_stencil_frame)
    show "tiling cfg \<longrightarrow> 0 < tile_size cfg" by (rule c(13))
  next
    show "IDX 0 (grid_n cfg) i j < length (outb s)"
      using h assms(2) by (intro IDX_less0) (simp_all add: halo_def well_sized_def)
  next
    fix i' j' assume i: "interior (RADIUS cfg) (grid_n cfg) i' j'"
    show "IDX 0 (grid_n cfg) i' j' \<noteq> IDX 0 (grid_n cfg) i j"
    proof
      assume "IDX 0 (grid_n cfg) i' j' = IDX 0 (grid_n cfg) i j"
      then have "i' = i \<and> j' = j"
        using i h c(10) by (intro IDX_inj [of 0 "grid_n cfg"]) (auto simp: interior_def halo_def)
      then show False using i h by (simp add: halo_def)
    qed
  qed
  then show "outb (background cfg s) ! IDX 0 (grid_n cfg) i j = outb s ! IDX 0 (grid_n cfg) i j"
    by (simp add: background_def)
next
  note c = valid_configD [OF assms(1)]
  fix g i j :: int assume a: "0 \<le> g \<and> g \<le> 3 \<and> halo (RADIUS cfg) (nr_true cfg) i j"
  then have h: "halo (RADIUS cfg) (nr_true cfg) i j" and g: "0 \<le> g" "g \<le> 3" by simp_all
  let ?m = "IDX (patch_base cfg g) (nr_true cfg) i j"
  have m: "?m < length (outr s)"
    using patch_IDX_less [OF g, of i "nr_true cfg" j] h assms(2)
    by (simp add: patch_base_def halo_def well_sized_def)
  have ne: "IDX (patch_base cfg (cur_g s)) (nr_true cfg) i' j' \<noteq> ?m"
    if i: "interior (RADIUS cfg) (nr_true cfg) i' j'" for i' j'
  proof
    assume "IDX (patch_base cfg (cur_g s)) (nr_true cfg) i' j' = ?m"
    then have "cur_g s = g \<and> i' = i \<and> j' = j"
      unfolding patch_base_def
      using i h c(10) g assms(3)
      by (intro patch_IDX_inj) (auto simp: interior_def halo_def)
    then show False using i h by (simp add: halo_def)
  qed
  have "fold (\<lambda>sub_iter.
             apply_stencil (stencil cfg) (RADIUS cfg) (tiling cfg) (tile_size cfg)
               (weight_r_tab s) (patch_base cfg (cur_g s)) (nr_true cfg) (inr s))
           [0..sub_iterations cfg - 1] (outr s) ! ?m = outr s ! ?m"
    using c(13) m ne by (rule fold_apply_stencil_frame)
  then show "outr (refine cfg iter s) ! ?m = outr s ! ?m"
    by (simp add: outr_refine)
qed

theorem halo_unchanged_witness:
  "halo (RADIUS scenario_A) (grid_n scenario_A) 1 7
   \<and> outb (background scenario_A raw_A) ! IDX 0 (grid_n scenario_A) 1 7
       = outb raw_A ! IDX 0 (grid_n scenario_A) 1 7
   \<and> halo (RADIUS scenario_A) (nr_true scenario_A) 2 4
   \<and> outr (refine scenario_A 0 (raw_A\<lparr>cur_g := 1\<rparr>)) ! IDX (patch_base scenario_A 3) (nr_true scenario_A) 2 4
       = outr (raw_A\<lparr>cur_g := 1\<rparr>) ! IDX (patch_base scenario_A 3) (nr_true scenario_A) 2 4"
proof -
  have w: "well_sized scenario_A (raw_A\<lparr>cur_g := 1\<rparr>)" "well_sized scenario_A raw_A"
    by (simp_all add: well_sized_def raw_A_def scenario_A_def nr_true_def expand_def)
  have h: "halo (RADIUS scenario_A) (grid_n scenario_A) 1 7"
    "halo (RADIUS scenario_A) (nr_true scenario_A) 2 4"
    by (simp_all add: halo_def interior_def scenario_A_def nr_true_def expand_def)
  have b: "outb (background scenario_A (raw_A\<lparr>cur_g := 1\<rparr>)) = outb (background scenario_A raw_A)"
    "outb (raw_A\<lparr>cur_g := 1\<rparr>) = outb raw_A"
    by (simp_all add: background_def)
  show ?thesis
    using halo_unchanged [OF valid_scenario_A w(1), of 0] h b by simp
qed

subsection \<open>The background input field\<close>



end
